theory Spec2Isabelle
  imports Main "HOL-Library.Word"
begin

unbundle bit_operations_syntax

section \<open>Addresses and sizes\<close>

text \<open>
  Addresses are natural numbers counted in elements of the pointed-to type, so that the
  pointer arithmetic \<^verbatim>\<open>p + n\<close> of the source is addition; \<open>0\<close> is \<^verbatim>\<open>nullptr\<close>.
  \<^verbatim>\<open>size_type\<close> is an unsigned integer type whose width the strategies do not fix, so
  sizes are words of an arbitrary width \<open>'w\<close>, with the wrap-around of unsigned
  arithmetic.
\<close>

type_synonym addr = nat

section \<open>Ring-buffer iterator (Base/AFifoIterator.h)\<close>

text \<open>
  \<^verbatim>\<open>AFifoIterator\<close> holds \<^verbatim>\<open>uint32_t ix\<close> and \<^verbatim>\<open>const FifoIndexing* fifo\<close>;
  \<^verbatim>\<open>FifoIterator<T>\<close> derives from it and adds \<^verbatim>\<open>T* data\<close>.
\<close>

record AFifoIterator =
  ix :: "32 word"
  fifo :: addr

record FifoIterator = AFifoIterator +
  data :: addr

definition AFifoIterator_eq :: "'a AFifoIterator_scheme \<Rightarrow> 'b AFifoIterator_scheme \<Rightarrow> bool" where
  "AFifoIterator_eq this other = (ix this = ix other \<and> fifo this = fifo other)"

definition AFifoIterator_neq :: "'a AFifoIterator_scheme \<Rightarrow> 'b AFifoIterator_scheme \<Rightarrow> bool" where
  "AFifoIterator_neq this other = (\<not> AFifoIterator_eq this other)"

text \<open>\<^verbatim>\<open>operator++()\<close> and \<^verbatim>\<open>operator--()\<close>: the iterator after the call.\<close>

definition AFifoIterator_inc :: "'a AFifoIterator_scheme \<Rightarrow> 'a AFifoIterator_scheme" where
  "AFifoIterator_inc this = this\<lparr>ix := ix this + 1\<rparr>"

definition AFifoIterator_dec :: "'a AFifoIterator_scheme \<Rightarrow> 'a AFifoIterator_scheme" where
  "AFifoIterator_dec this = this\<lparr>ix := ix this - 1\<rparr>"

text \<open>
  \<^verbatim>\<open>operator++(int)\<close> and \<^verbatim>\<open>operator--(int)\<close>: the returned copy of the
  \<^verbatim>\<open>AFifoIterator\<close> part as it was, and the iterator after the call.
\<close>

definition AFifoIterator_postinc ::
  "'a AFifoIterator_scheme \<Rightarrow> AFifoIterator \<times> 'a AFifoIterator_scheme" where
  "AFifoIterator_postinc this =
     (let old = AFifoIterator.truncate this in (old, AFifoIterator_inc this))"

definition AFifoIterator_postdec ::
  "'a AFifoIterator_scheme \<Rightarrow> AFifoIterator \<times> 'a AFifoIterator_scheme" where
  "AFifoIterator_postdec this =
     (let old = AFifoIterator.truncate this in (old, AFifoIterator_dec this))"

text \<open>
  The iterator reaches its \<^verbatim>\<open>FifoIndexing\<close> (Base/FifoIndexing.h) through the pointer
  \<^verbatim>\<open>fifo\<close> at every call, so the translators are a parameter: \<open>indexing p i\<close> is what
  \<^verbatim>\<open>p->getIndexFromFront(i)\<close> returns in the state in which the call is made.
\<close>

definition AFifoIterator_getIndexFromFront ::
  "(addr \<Rightarrow> 32 word \<Rightarrow> 32 word) \<Rightarrow> 'a AFifoIterator_scheme \<Rightarrow> 32 word \<Rightarrow> 32 word" where
  "AFifoIterator_getIndexFromFront indexing this i = indexing (fifo this) i"

definition FifoIterator_get :: "(addr \<Rightarrow> 32 word \<Rightarrow> 32 word) \<Rightarrow> FifoIterator \<Rightarrow> addr" where
  "FifoIterator_get indexing this =
     FifoIterator.data this + unat (AFifoIterator_getIndexFromFront indexing this (ix this))"

section \<open>Memory strategies (include/etl/base/MemStrategies.h)\<close>

text \<open>\<^verbatim>\<open>StaticSized\<close> (include/etl/base/MemStrategies.h): the two constant members.\<close>

record (overloaded) 'w StaticSized =
  data :: addr
  capacity :: "'w word"

text \<open>
  \<^verbatim>\<open>AVectorBase::Proxy\<close>, the fields \<^verbatim>\<open>swap\<close> and the strategies read and write.
  The field \<^verbatim>\<open>size\<close> is written \<open>size'\<close>.
\<close>

record (overloaded) 'w Proxy =
  data :: addr
  capacity :: "'w word"
  size' :: "'w word"

subsection \<open>AVectorBase::swap (Base/AVectorBase.cpp)\<close>

text \<open>
  The two vectors are objects in a store, named by their addresses, so that the case
  \<^verbatim>\<open>v.swap(v)\<close> is covered. Each assignment of the source is one store update, in the
  source's order.
\<close>

definition swap ::
  "(addr \<Rightarrow> ('w, 'z) Proxy_scheme) \<Rightarrow> addr \<Rightarrow> addr \<Rightarrow> (addr \<Rightarrow> ('w, 'z) Proxy_scheme)" where
  "swap s this other =
     (let tmpProxy = s this;
          s1 = s(this := (s this)\<lparr>data := Proxy.data (s other)\<rparr>);
          s2 = s1(this := (s1 this)\<lparr>capacity := Proxy.capacity (s1 other)\<rparr>);
          s3 = s2(this := (s2 this)\<lparr>size' := size' (s2 other)\<rparr>);
          s4 = s3(other := (s3 other)\<lparr>data := Proxy.data tmpProxy\<rparr>);
          s5 = s4(other := (s4 other)\<lparr>capacity := Proxy.capacity tmpProxy\<rparr>);
          s6 = s5(other := (s5 other)\<lparr>size' := size' tmpProxy\<rparr>)
      in s6)"

text \<open>The field triple of one proxy written over another, all other fields kept.\<close>

definition withTriple :: "('w, 'z) Proxy_scheme \<Rightarrow> ('w, 'z) Proxy_scheme \<Rightarrow> ('w, 'z) Proxy_scheme" where
  "withTriple p q = p\<lparr>data := Proxy.data q, capacity := Proxy.capacity q, size' := size' q\<rparr>"

subsection \<open>handle()\<close>

definition StaticSized_handle :: "'w StaticSized \<Rightarrow> addr" where
  "StaticSized_handle st = StaticSized.data st"

text \<open>
  \<^verbatim>\<open>DynamicSized<C, A, UA>\<close> has one member, \<^verbatim>\<open>allocator\<close>. For the handle only its
  address matters: \<open>allocatorAddr\<close> is \<^verbatim>\<open>&allocator\<close> of the instance. The function-local
  \<^verbatim>\<open>static const int h\<close> of \<^verbatim>\<open>getHandle\<close> is one object of the instantiation, whatever
  the instance: its address \<open>h\<close> is a parameter of the class, not of the instance.
\<close>

record DynamicSizedObj =
  allocatorAddr :: addr

definition getHandle :: "addr \<Rightarrow> bool \<Rightarrow> DynamicSizedObj \<Rightarrow> addr" where
  "getHandle h UNIQUE_ALLOCATOR self = (if UNIQUE_ALLOCATOR then allocatorAddr self else h)"

definition DynamicSized_handle :: "addr \<Rightarrow> bool \<Rightarrow> DynamicSizedObj \<Rightarrow> addr" where
  "DynamicSized_handle h UNIQUE_ALLOCATOR self = getHandle h UNIQUE_ALLOCATOR self"

subsection \<open>Effects of a strategy on a container\<close>

text \<open>
  A strategy changes the proxy of the container and calls the element operations of
  \<^verbatim>\<open>C::ops()\<close> and the allocator. Those calls are recorded, in order, in a trace:
  \<^verbatim>\<open>placeDefaultTo(pos)\<close>, \<^verbatim>\<open>placeValueTo(pos, ref)\<close>, \<^verbatim>\<open>destruct(first, last)\<close>,
  \<^verbatim>\<open>moveWithPlacement(src, dst, n)\<close>, \<^verbatim>\<open>allocate(n)\<close> and \<^verbatim>\<open>deallocate(p, n)\<close>.
\<close>

datatype ('n, 'v) event =
    PlaceDefaultTo addr
  | PlaceValueTo addr 'v
  | Destruct addr addr
  | MoveWithPlacement addr addr 'n
  | Allocate 'n
  | Deallocate addr 'n

record (overloaded) ('w, 'v) Cont = "'w Proxy" +
  trace :: "('w word, 'v) event list"

text \<open>\<^verbatim>\<open>cont.end()\<close>: one past the last element.\<close>

definition end' :: "('w::len, 'v) Cont \<Rightarrow> addr" where
  "end' cont = Proxy.data cont + unat (size' cont)"

text \<open>The contract violations of the specification, as values.\<close>

datatype violation = CapacityExceeded | PoolExhausted | Misuse

text \<open>
  The loop \<^verbatim>\<open>for (iterator it = cont.end(); it < newEnd; ++it) { inserter(it); }\<close>
  of both \<^verbatim>\<open>resizeWithInserter\<close>.
\<close>

function insertLoop :: "(addr \<Rightarrow> 'e) \<Rightarrow> addr \<Rightarrow> addr \<Rightarrow> 'e list \<Rightarrow> 'e list" where
  "insertLoop inserter it newEnd tr =
     (if it < newEnd then insertLoop inserter (it + 1) newEnd (tr @ [inserter it]) else tr)"
  by pat_completeness auto
termination
  by (relation "measure (\<lambda>(inserter, it, newEnd, tr). newEnd - it)") auto

subsection \<open>StaticSized\<close>

text \<open>
  The operations return \<open>Inr\<close> of the container when they return normally; \<open>Inl\<close> is a
  signalled violation. The source signals none: the branch for a length beyond the
  capacity is the comment \<^verbatim>\<open>// TODO throw;\<close>.
\<close>

definition StaticSized_getMaxCapacity :: "'w StaticSized \<Rightarrow> 'w word" where
  "StaticSized_getMaxCapacity st = StaticSized.capacity st"

definition StaticSized_setupData ::
  "('w::len) StaticSized \<Rightarrow> ('w, 'v) Cont \<Rightarrow> 'w word \<Rightarrow> violation + ('w, 'v) Cont" where
  "StaticSized_setupData st cont length' =
     (if length' \<le> StaticSized.capacity st
      then Inr (cont\<lparr>data := StaticSized.data st, capacity := StaticSized.capacity st\<rparr>)
      else Inr cont)"

definition StaticSized_reserveExactly ::
  "('w::len) StaticSized \<Rightarrow> ('w, 'v) Cont \<Rightarrow> 'w word \<Rightarrow> violation + ('w, 'v) Cont" where
  "StaticSized_reserveExactly st cont length' = StaticSized_setupData st cont length'"

definition StaticSized_reserve ::
  "('w::len) StaticSized \<Rightarrow> ('w, 'v) Cont \<Rightarrow> 'w word \<Rightarrow> violation + ('w, 'v) Cont" where
  "StaticSized_reserve st cont length' = StaticSized_setupData st cont length'"

definition StaticSized_shrinkToFit ::
  "('w::len) StaticSized \<Rightarrow> ('w, 'v) Cont \<Rightarrow> violation + ('w, 'v) Cont" where
  "StaticSized_shrinkToFit st cont = StaticSized_setupData st cont (StaticSized.capacity st)"

definition StaticSized_resizeWithInserter ::
  "('w::len) StaticSized \<Rightarrow> ('w, 'v) Cont \<Rightarrow> 'w word \<Rightarrow> (addr \<Rightarrow> ('w word, 'v) event)
     \<Rightarrow> violation + ('w, 'v) Cont" where
  "StaticSized_resizeWithInserter st cont length' inserter =
     (if length' \<le> StaticSized.capacity st then
        (case StaticSized_setupData st cont length' of
           Inl e \<Rightarrow> Inl e
         | Inr c1 \<Rightarrow>
             (let c2 =
                (if length' > size' c1 then
                   (let newEnd = Proxy.data c1 + unat length'
                    in c1\<lparr>trace := insertLoop inserter (end' c1) newEnd (trace c1)\<rparr>)
                 else if length' < size' c1 then
                   (let newEnd = Proxy.data c1 + unat length'
                    in c1\<lparr>trace := trace c1 @ [Destruct newEnd (end' c1)]\<rparr>)
                 else c1)
              in Inr (c2\<lparr>size' := length'\<rparr>)))
      else Inr cont)"

definition StaticSized_resize ::
  "('w::len) StaticSized \<Rightarrow> ('w, 'v) Cont \<Rightarrow> 'w word \<Rightarrow> violation + ('w, 'v) Cont" where
  "StaticSized_resize st cont length' =
     StaticSized_resizeWithInserter st cont length' PlaceDefaultTo"

definition StaticSized_resize_ref ::
  "('w::len) StaticSized \<Rightarrow> ('w, 'v) Cont \<Rightarrow> 'w word \<Rightarrow> 'v \<Rightarrow> violation + ('w, 'v) Cont" where
  "StaticSized_resize_ref st cont length' ref =
     StaticSized_resizeWithInserter st cont length' (\<lambda>pos. PlaceValueTo pos ref)"

subsection \<open>DynamicSized\<close>

text \<open>
  The strategy's only member is the allocator. \<open>allocator n\<close> is the pointer
  \<^verbatim>\<open>allocator.allocate(n)\<close> returns, \<open>0\<close> for \<^verbatim>\<open>nullptr\<close>; every operation below
  allocates at most once.
\<close>

definition getRoundedLength :: "('w::len) word \<Rightarrow> 'w word" where
  "getRoundedLength length' = (length' + (8 - 1)) AND NOT (8 - 1)"

definition DynamicSized_getMaxCapacity :: "('w::len) word" where
  "DynamicSized_getMaxCapacity = - 1"

definition DynamicSized_allocate ::
  "('w word \<Rightarrow> addr) \<Rightarrow> ('w::len, 'v) Cont \<Rightarrow> 'w word \<Rightarrow> ('w, 'v) Cont" where
  "DynamicSized_allocate allocator cont len =
     (let c1 = (if len > 0
                then cont\<lparr>data := allocator len, trace := trace cont @ [Allocate len]\<rparr>
                else cont\<lparr>data := 0\<rparr>)
      in if Proxy.data c1 \<noteq> 0 then c1\<lparr>capacity := len\<rparr> else c1\<lparr>capacity := 0\<rparr>)"

definition DynamicSized_reallocateAndCopyFor ::
  "('w word \<Rightarrow> addr) \<Rightarrow> ('w::len, 'v) Cont \<Rightarrow> 'w word \<Rightarrow> ('w, 'v) Cont" where
  "DynamicSized_reallocateAndCopyFor allocator cont len =
     (let oldData = Proxy.data cont;
          oldEnd = end' cont;
          oldCapacity = Proxy.capacity cont;
          c1 = DynamicSized_allocate allocator cont len
      in if oldData \<noteq> 0 then
           (let numToCopy = (if len < size' c1 then len else size' c1);
                c2 = (if Proxy.data c1 \<noteq> 0 \<and> numToCopy > 0
                      then c1\<lparr>trace := trace c1
                                @ [MoveWithPlacement oldData (Proxy.data c1) numToCopy]\<rparr>
                      else c1);
                c3 = c2\<lparr>trace := trace c2 @ [Destruct oldData oldEnd]\<rparr>
            in c3\<lparr>trace := trace c3 @ [Deallocate oldData oldCapacity]\<rparr>)
         else c1)"

definition DynamicSized_reserveExactly ::
  "('w word \<Rightarrow> addr) \<Rightarrow> ('w::len, 'v) Cont \<Rightarrow> 'w word \<Rightarrow> ('w, 'v) Cont" where
  "DynamicSized_reserveExactly allocator cont length' =
     (if length' > Proxy.capacity cont
      then DynamicSized_reallocateAndCopyFor allocator cont length'
      else cont)"

definition DynamicSized_reserve ::
  "('w word \<Rightarrow> addr) \<Rightarrow> ('w::len, 'v) Cont \<Rightarrow> 'w word \<Rightarrow> ('w, 'v) Cont" where
  "DynamicSized_reserve allocator cont length' =
     (let cap = Proxy.capacity cont
      in if length' > cap then
           (let goal = max length' (2 * cap)
            in DynamicSized_reserveExactly allocator cont (getRoundedLength goal))
         else cont)"

definition DynamicSized_shrinkToFit ::
  "('w word \<Rightarrow> addr) \<Rightarrow> ('w::len, 'v) Cont \<Rightarrow> ('w, 'v) Cont" where
  "DynamicSized_shrinkToFit allocator cont =
     (if Proxy.capacity cont > size' cont
      then DynamicSized_reallocateAndCopyFor allocator cont (size' cont)
      else cont)"

definition DynamicSized_resizeWithInserter ::
  "('w word \<Rightarrow> addr) \<Rightarrow> ('w::len, 'v) Cont \<Rightarrow> 'w word \<Rightarrow> (addr \<Rightarrow> ('w word, 'v) event)
     \<Rightarrow> ('w, 'v) Cont" where
  "DynamicSized_resizeWithInserter allocator cont length' inserter =
     (let c2 =
        (if length' > size' cont then
           (let c1 = (if length' > Proxy.capacity cont
                      then DynamicSized_reallocateAndCopyFor allocator cont
                             (getRoundedLength length')
                      else cont);
                newEnd = Proxy.data c1 + unat length'
            in c1\<lparr>trace := insertLoop inserter (end' c1) newEnd (trace c1)\<rparr>)
         else if length' < size' cont then
           (let newEnd = Proxy.data cont + unat length'
            in cont\<lparr>trace := trace cont @ [Destruct newEnd (end' cont)]\<rparr>)
         else cont)
      in c2\<lparr>size' := length'\<rparr>)"

definition DynamicSized_resize ::
  "('w word \<Rightarrow> addr) \<Rightarrow> ('w::len, 'v) Cont \<Rightarrow> 'w word \<Rightarrow> ('w, 'v) Cont" where
  "DynamicSized_resize allocator cont length' =
     DynamicSized_resizeWithInserter allocator cont length' PlaceDefaultTo"

definition DynamicSized_resize_ref ::
  "('w word \<Rightarrow> addr) \<Rightarrow> ('w::len, 'v) Cont \<Rightarrow> 'w word \<Rightarrow> 'v \<Rightarrow> ('w, 'v) Cont" where
  "DynamicSized_resize_ref allocator cont length' ref =
     DynamicSized_resizeWithInserter allocator cont length' (\<lambda>pos. PlaceValueTo pos ref)"

section \<open>Sorted engine and Map (Map.h)\<close>

text \<open>
  A sorted container is the list of its items in order. An iterator is the position of
  an item, an integer: \<open>0\<close> is \<^verbatim>\<open>begin()\<close>, the length is \<^verbatim>\<open>end()\<close>, and \<^verbatim>\<open>--it\<close> is
  \<open>it - 1\<close>, also where it leaves the sequence. Keys are linearly ordered by \<open><\<close>, the
  comparator; two keys compare equal when they are equal.
\<close>

text \<open>
  Modelled from the spec: \<^verbatim>\<open>Sorted::findSortedPosition\<close> (Base/Sorted.h, which is not in
  src/), after sections 4.3 and 8: a binary search over the sorted sequence, with
  \<open>keyOf\<close> projecting the key of an item, that returns \<open>(position, exactMatchFound)\<close>;
  \<open>position\<close> is the first position whose key is not less than \<open>key\<close> (lower-bound
  semantics), and \<open>exactMatchFound\<close> is true iff that position's key compares equal to
  \<open>key\<close>.
\<close>

function lowerBound :: "('i \<Rightarrow> 'k::linorder) \<Rightarrow> 'i list \<Rightarrow> 'k \<Rightarrow> nat \<Rightarrow> nat \<Rightarrow> nat" where
  "lowerBound keyOf xs key lo hi =
     (if lo < hi then
        (let mid = lo + (hi - lo) div 2
         in if keyOf (xs ! mid) < key
            then lowerBound keyOf xs key (mid + 1) hi
            else lowerBound keyOf xs key lo mid)
      else lo)"
  by pat_completeness auto
termination
  by (relation "measure (\<lambda>(keyOf, xs, key, lo, hi). hi - lo)") auto

definition findSortedPosition :: "('i \<Rightarrow> 'k::linorder) \<Rightarrow> 'i list \<Rightarrow> 'k \<Rightarrow> int \<times> bool" where
  "findSortedPosition keyOf xs key =
     (let pos = lowerBound keyOf xs key 0 (length xs)
      in (int pos, pos < length xs \<and> keyOf (xs ! pos) = key))"

text \<open>
  Modelled from the spec: \<^verbatim>\<open>end()\<close>, \<^verbatim>\<open>erase(Iterator)\<close> and \<^verbatim>\<open>insertTo\<close> of the
  base container (Base/Sorted.h and the list under it, which are not in src/).
  Erasing at a position that holds no item is a misuse violation (section 7, category 3);
  \<^verbatim>\<open>erase\<close> returns the position after the erased item; \<^verbatim>\<open>insertTo\<close> places the item
  before the position and returns the position of the new item.
\<close>

definition MapBase_end :: "'i list \<Rightarrow> int" where
  "MapBase_end xs = int (length xs)"

definition MapBase_erase :: "'i list \<Rightarrow> int \<Rightarrow> violation + ('i list \<times> int)" where
  "MapBase_erase xs pos =
     (if 0 \<le> pos \<and> pos < int (length xs)
      then Inr (take (nat pos) xs @ drop (Suc (nat pos)) xs, pos)
      else Inl Misuse)"

definition MapBase_insertTo :: "'i list \<Rightarrow> int \<Rightarrow> 'i \<Rightarrow> 'i list \<times> int" where
  "MapBase_insertTo xs pos item = (take (nat pos) xs @ [item] @ drop (nat pos) xs, pos)"

text \<open>
  Modelled from the spec: \<^verbatim>\<open>Sorted::insertUnique\<close> (Base/Sorted.h), after section 4.3:
  it computes \<^verbatim>\<open>findSortedPosition\<close>; if a match exists, no insertion occurs and the
  result flags failure; otherwise the item is inserted at \<open>position\<close>. It returns
  \<open>(iterator-to-item, inserted)\<close>. The search is a parameter \<open>fsp\<close>.
\<close>

definition insertUnique_with ::
  "(('i \<Rightarrow> 'k) \<Rightarrow> 'i list \<Rightarrow> 'k \<Rightarrow> int \<times> bool) \<Rightarrow> ('i \<Rightarrow> 'k) \<Rightarrow> 'i list \<Rightarrow> 'i
     \<Rightarrow> 'i list \<times> int \<times> bool" where
  "insertUnique_with fsp keyOf xs item =
     (case fsp keyOf xs (keyOf item) of
        (pos, found) \<Rightarrow>
          if found then (xs, pos, False)
          else (case MapBase_insertTo xs pos item of (xs', it) \<Rightarrow> (xs', it, True)))"

text \<open>
  \<^verbatim>\<open>Map::find(const K&)\<close>, \<^verbatim>\<open>Map::erase(const K&)\<close>, \<^verbatim>\<open>Map::insertOrAssign\<close> and
  \<^verbatim>\<open>Map::emplace\<close> (Map.h), with the search they call as the parameter \<open>fsp\<close>. A
  \<^verbatim>\<open>MapItem\<close> is the pair of its key and its element; \<^verbatim>\<open>emplace\<close> is given the element
  its arguments construct. On a match \<^verbatim>\<open>find\<close>, \<^verbatim>\<open>erase\<close> and \<^verbatim>\<open>insertOrAssign\<close> step
  back once (\<^verbatim>\<open>--found.first\<close>) and \<^verbatim>\<open>emplace\<close> does not. Dereferencing a position
  that holds no item is a misuse violation.
\<close>

definition Map_find_with ::
  "((('k \<times> 'e) \<Rightarrow> 'k) \<Rightarrow> ('k \<times> 'e) list \<Rightarrow> 'k \<Rightarrow> int \<times> bool) \<Rightarrow> ('k \<times> 'e) list \<Rightarrow> 'k \<Rightarrow> int" where
  "Map_find_with fsp m k =
     (case fsp fst m k of (pos, found) \<Rightarrow> if found = True then pos - 1 else MapBase_end m)"

definition Map_erase_with ::
  "((('k \<times> 'e) \<Rightarrow> 'k) \<Rightarrow> ('k \<times> 'e) list \<Rightarrow> 'k \<Rightarrow> int \<times> bool) \<Rightarrow> ('k \<times> 'e) list \<Rightarrow> 'k
     \<Rightarrow> violation + ('k \<times> 'e) list" where
  "Map_erase_with fsp m k =
     (case fsp fst m k of
        (pos, found) \<Rightarrow>
          if found = True
          then (case MapBase_erase m (pos - 1) of Inl v \<Rightarrow> Inl v | Inr (m', it) \<Rightarrow> Inr m')
          else Inr m)"

definition Map_insertOrAssign_with ::
  "((('k \<times> 'e) \<Rightarrow> 'k) \<Rightarrow> ('k \<times> 'e) list \<Rightarrow> 'k \<Rightarrow> int \<times> bool) \<Rightarrow> ('k \<times> 'e) list \<Rightarrow> 'k \<Rightarrow> 'e
     \<Rightarrow> violation + (('k \<times> 'e) list \<times> int \<times> bool)" where
  "Map_insertOrAssign_with fsp m k e =
     (case fsp fst m k of
        (pos, found) \<Rightarrow>
          if found = False
          then (case MapBase_insertTo m pos (k, e) of (m', it) \<Rightarrow> Inr (m', it, \<not> found))
          else (let it = pos - 1
                in if 0 \<le> it \<and> it < int (length m)
                   then Inr (m[nat it := (fst (m ! nat it), e)], it, \<not> found)
                   else Inl Misuse))"

definition Map_emplace_with ::
  "((('k \<times> 'e) \<Rightarrow> 'k) \<Rightarrow> ('k \<times> 'e) list \<Rightarrow> 'k \<Rightarrow> int \<times> bool) \<Rightarrow> ('k \<times> 'e) list \<Rightarrow> 'k \<Rightarrow> 'e
     \<Rightarrow> ('k \<times> 'e) list \<times> int \<times> bool" where
  "Map_emplace_with fsp m k e =
     (case fsp fst m k of
        (pos, found) \<Rightarrow>
          if found = False
          then (case MapBase_insertTo m pos (k, e) of (m', it) \<Rightarrow> (m', it, \<not> found))
          else (m, pos, \<not> found))"

text \<open>The operations with the search of the specification.\<close>

definition insertUnique :: "('i \<Rightarrow> 'k::linorder) \<Rightarrow> 'i list \<Rightarrow> 'i \<Rightarrow> 'i list \<times> int \<times> bool" where
  "insertUnique = insertUnique_with findSortedPosition"

definition Map_insert :: "('k::linorder \<times> 'e) list \<Rightarrow> 'k \<Rightarrow> 'e \<Rightarrow> ('k \<times> 'e) list \<times> int \<times> bool" where
  "Map_insert m k e = insertUnique fst m (k, e)"

definition Map_find :: "('k::linorder \<times> 'e) list \<Rightarrow> 'k \<Rightarrow> int" where
  "Map_find = Map_find_with findSortedPosition"

definition Map_erase :: "('k::linorder \<times> 'e) list \<Rightarrow> 'k \<Rightarrow> violation + ('k \<times> 'e) list" where
  "Map_erase = Map_erase_with findSortedPosition"

definition Map_insertOrAssign ::
  "('k::linorder \<times> 'e) list \<Rightarrow> 'k \<Rightarrow> 'e \<Rightarrow> violation + (('k \<times> 'e) list \<times> int \<times> bool)" where
  "Map_insertOrAssign = Map_insertOrAssign_with findSortedPosition"


text \<open>A sequence of \<^verbatim>\<open>insertUnique\<close> calls on an empty container.\<close>

definition insertAll :: "('i \<Rightarrow> 'k::linorder) \<Rightarrow> 'i list \<Rightarrow> 'i list" where
  "insertAll keyOf items = foldl (\<lambda>xs item. fst (insertUnique keyOf xs item)) [] items"

section \<open>Pool allocator and pooled list\<close>

text \<open>
  Modelled from the spec: the pool allocator (PoolAllocator.h, which is not in src/),
  after sections 3 and 4.2: a fixed array of \<open>N\<close> node slots, a free list and the count
  of ever-claimed slots. A slot is its index in the array; the free list is the list of
  the released slots, the most recently released first.
\<close>

record Pool =
  poolCapacity :: nat
  freeList :: "nat list"
  claimed :: nat

definition emptyPool :: "nat \<Rightarrow> Pool" where
  "emptyPool N = \<lparr>poolCapacity = N, freeList = [], claimed = 0\<rparr>"

text \<open>
  Modelled from the spec: \<^verbatim>\<open>acquire()\<close> prefers the head of the free list; otherwise it
  claims the next never-used slot by bumping the counter; it fails with
  \<open>PoolExhausted\<close> once the free list is empty and the claim counter is at \<open>N\<close>.
  \<^verbatim>\<open>release(addr)\<close> pushes the slot back onto the free list.
\<close>

definition acquire :: "Pool \<Rightarrow> violation + (nat \<times> Pool)" where
  "acquire p =
     (case freeList p of
        slot # rest \<Rightarrow> Inr (slot, p\<lparr>freeList := rest\<rparr>)
      | [] \<Rightarrow>
          if claimed p < poolCapacity p
          then Inr (claimed p, p\<lparr>claimed := claimed p + 1\<rparr>)
          else Inl PoolExhausted)"

definition release :: "Pool \<Rightarrow> nat \<Rightarrow> Pool" where
  "release p slot = p\<lparr>freeList := slot # freeList p\<rparr>"

text \<open>
  Modelled from the spec: the pooled list \<^verbatim>\<open>Etl::Pooled::List<T, N>\<close> (List.h, which is
  not in src/), as section 4.2 and its test in Test/testList.cpp have it: the nodes
  in list order, each the slot it lives in and its payload, and the pool they come
  from. \<^verbatim>\<open>insert(pos, item)\<close> acquires a node before it constructs the payload there;
  when the pool is exhausted it returns \<^verbatim>\<open>end()\<close> and does nothing else.
  \<^verbatim>\<open>erase(pos)\<close> destroys the payload and releases the node; at a position that holds
  no item it is a misuse violation. \<open>constructed\<close> and \<open>destroyed\<close> count the payloads
  constructed and destroyed, as the object count of the tests' \<^verbatim>\<open>ContainerTester\<close>
  does.
\<close>

record 'a PooledList =
  pool :: Pool
  nodes :: "(nat \<times> 'a) list"
  constructed :: nat
  destroyed :: nat

definition emptyList :: "nat \<Rightarrow> 'a PooledList" where
  "emptyList N = \<lparr>pool = emptyPool N, nodes = [], constructed = 0, destroyed = 0\<rparr>"

definition getSize :: "'a PooledList \<Rightarrow> nat" where
  "getSize l = length (nodes l)"

definition List_end :: "'a PooledList \<Rightarrow> int" where
  "List_end l = int (length (nodes l))"

definition List_insert :: "'a PooledList \<Rightarrow> int \<Rightarrow> 'a \<Rightarrow> 'a PooledList \<times> int" where
  "List_insert l pos item =
     (case acquire (pool l) of
        Inl v \<Rightarrow> (l, List_end l)
      | Inr (slot, p') \<Rightarrow>
          (l\<lparr>pool := p',
             nodes := take (nat pos) (nodes l) @ [(slot, item)] @ drop (nat pos) (nodes l),
             constructed := constructed l + 1\<rparr>, pos))"

definition List_pushBack :: "'a PooledList \<Rightarrow> 'a \<Rightarrow> 'a PooledList" where
  "List_pushBack l item = fst (List_insert l (List_end l) item)"

definition List_erase :: "'a PooledList \<Rightarrow> int \<Rightarrow> violation + ('a PooledList \<times> int)" where
  "List_erase l pos =
     (if 0 \<le> pos \<and> pos < List_end l
      then Inr (l\<lparr>pool := release (pool l) (fst (nodes l ! nat pos)),
                  nodes := take (nat pos) (nodes l) @ drop (Suc (nat pos)) (nodes l),
                  destroyed := destroyed l + 1\<rparr>, pos)
      else Inl Misuse)"

text \<open>The lists a program can reach from the empty list of capacity \<open>N\<close>.\<close>

inductive reachable :: "nat \<Rightarrow> 'a PooledList \<Rightarrow> bool" for N :: nat where
  empty: "reachable N (emptyList N)"
| insert: "reachable N l \<Longrightarrow> 0 \<le> pos \<Longrightarrow> pos \<le> List_end l \<Longrightarrow> reachable N (fst (List_insert l pos item))"
| erase: "reachable N l \<Longrightarrow> List_erase l pos = Inr (l', it) \<Longrightarrow> reachable N l'"

text \<open>
  The slots of the nodes and the slots of the free list are all different and together
  they are the slots claimed so far.
\<close>

definition pool_inv :: "nat \<Rightarrow> 'a PooledList \<Rightarrow> bool" where
  "pool_inv N l \<longleftrightarrow>
     poolCapacity (pool l) = N \<and> claimed (pool l) \<le> N
     \<and> distinct (map fst (nodes l) @ freeList (pool l))
     \<and> set (map fst (nodes l)) \<union> set (freeList (pool l)) = {0 ..< claimed (pool l)}"

text \<open>\<^verbatim>\<open>pushBack\<close> of each item of a list, in order.\<close>

definition pushAll :: "'a PooledList \<Rightarrow> 'a list \<Rightarrow> 'a PooledList" where
  "pushAll l items = foldl List_pushBack l items"

section \<open>Theorems\<close>

lemma withTriple_self: "withTriple p p = p"
  by (simp add: withTriple_def)

lemma withTriple_left: "withTriple (withTriple p q) r = withTriple p r"
  by (simp add: withTriple_def)

lemma withTriple_right: "withTriple p (withTriple q r) = withTriple p r"
  by (simp add: withTriple_def)

lemma swap_eq: "swap s a b = s(a := withTriple (s a) (s b), b := withTriple (s b) (s a))"
  by (cases "a = b") (auto simp: swap_def withTriple_def Let_def fun_eq_iff)

text \<open>
  C10. \<^verbatim>\<open>AVectorBase::swap(other)\<close> leaves every object of the store but the two
  vectors as it was, gives each of the two proxies the other's previous
  \<open>{data, capacity, size}\<close> triple and keeps every other field of both; and swapping the
  same pair a second time gives back the store it started from.
\<close>

theorem C10_swap_exchanges_triples:
  "swap s a b = s(a := withTriple (s a) (s b), b := withTriple (s b) (s a))
   \<and> swap (swap s a b) a b = s"
  by (cases "a = b") (auto simp: swap_eq withTriple_self withTriple_left withTriple_right fun_eq_iff)

text \<open>
  C9, as the code has it. With \<^verbatim>\<open>UNIQUE_ALLOCATOR == false\<close> the handle of a dynamic
  strategy is the address of the static \<^verbatim>\<open>h\<close> of its instantiation
  \<^verbatim>\<open>DynamicSized<C, A, false>\<close>: the same for any two instances of one instantiation, and
  the handles of two instances are equal exactly when the statics of their
  instantiations are at the same address. With \<^verbatim>\<open>UNIQUE_ALLOCATOR == true\<close> it is the
  address of the instance's own \<^verbatim>\<open>allocator\<close> member; the handle of a fixed strategy is
  the address of the buffer it was bound to.
\<close>

theorem C9_handle:
  "DynamicSized_handle h False self1 = DynamicSized_handle h False self2
   \<and> DynamicSized_handle h False self1 = h
   \<and> (DynamicSized_handle h1 False self1 = DynamicSized_handle h2 False self2 \<longleftrightarrow> h1 = h2)
   \<and> DynamicSized_handle h True self1 = allocatorAddr self1
   \<and> StaticSized_handle \<lparr>StaticSized.data = d, capacity = c\<rparr> = d"
  by (simp add: DynamicSized_handle_def getHandle_def StaticSized_handle_def)

text \<open>
  C9 as stated fails across instantiations. \<^verbatim>\<open>DynamicSized<C1, A1, false>\<close> and
  \<^verbatim>\<open>DynamicSized<C2, A2, false>\<close> each have their own static \<^verbatim>\<open>h\<close>, two objects at
  two addresses, here 100 and 200: an instance of the one and an instance of the other
  have different handles.
\<close>

theorem C9_counterexample:
  "DynamicSized_handle 100 False \<lparr>allocatorAddr = 1\<rparr>
     \<noteq> DynamicSized_handle 200 False \<lparr>allocatorAddr = 2\<rparr>"
  by (simp add: DynamicSized_handle_def getHandle_def)

subsection \<open>Memory strategies\<close>

declare insertLoop.simps [simp del]

lemma insertLoop_eq: "insertLoop inserter it newEnd tr = tr @ map inserter [it..<newEnd]"
proof (induction inserter it newEnd tr rule: insertLoop.induct)
  case (1 inserter it newEnd tr)
  show ?case
  proof (cases "it < newEnd")
    case True
    then show ?thesis using 1 by (subst insertLoop.simps) (simp add: upt_conv_Cons)
  next
    case False
    then show ?thesis by (subst insertLoop.simps) simp
  qed
qed

lemma and_not_mask_eq: "(y :: 'a::len word) AND NOT (mask n) = push_bit n (drop_bit n y)"
  by (rule bit_eqI) (auto simp: bit_simps)

lemma unat_round_down: "unat ((y :: 'a::len word) AND NOT (mask 3)) = (unat y div 8) * 8"
proof -
  have "(unat y div 8) * 8 \<le> unat y" by simp
  also have "unat y < 2 ^ LENGTH('a)" by simp
  finally have lt: "(unat y div 8) * 8 < 2 ^ LENGTH('a)" .
  have "unat (push_bit 3 (drop_bit 3 y)) = take_bit LENGTH('a) (push_bit 3 (drop_bit 3 (unat y)))"
    by (simp add: unsigned_push_bit_eq unat_drop_bit_eq)
  also have "\<dots> = (unat y div 8) * 8"
    using lt by (simp add: push_bit_eq_mult drop_bit_eq_div take_bit_nat_eq_self)
  finally show ?thesis by (simp add: and_not_mask_eq)
qed

lemma getRoundedLength_mask: "getRoundedLength (x :: 'w::len word) = (x + 7) AND NOT (mask 3)"
  by (simp add: getRoundedLength_def mask_eq_exp_minus_1)

lemma getRoundedLength_mod8: "unat (getRoundedLength (x :: 'w::len word)) mod 8 = 0"
  by (simp add: getRoundedLength_mask unat_round_down)

lemma getRoundedLength_unat:
  fixes x :: "'w::len word"
  assumes "unat x + 7 < 2 ^ LENGTH('w)"
  shows "unat (getRoundedLength x) = ((unat x + 7) div 8) * 8"
proof -
  have "(7::nat) < 2 ^ LENGTH('w)" using assms by simp
  then have "unat (of_nat 7 :: 'w word) = 7"
    by (simp only: unat_of_nat mod_less)
  then have seven: "unat (7 :: 'w word) = 7"
    by simp
  have "unat (x + 7) = unat x + 7"
    using assms seven by (simp add: unat_add_lem [THEN iffD1])
  then show ?thesis
    by (simp add: getRoundedLength_mask unat_round_down)
qed

lemma getRoundedLength_ge:
  fixes x :: "'w::len word"
  assumes "unat x + 7 < 2 ^ LENGTH('w)"
  shows "x \<le> getRoundedLength x"
proof -
  have "unat x \<le> ((unat x + 7) div 8) * 8" by presburger
  then show ?thesis
    by (simp add: word_le_nat_alt getRoundedLength_unat [OF assms])
qed


lemma allocate_nonnull:
  fixes cont :: "('w::len, 'v) Cont"
  assumes "0 < len" "allocator len \<noteq> 0"
  shows "DynamicSized_allocate allocator cont len =
           cont\<lparr>data := allocator len, capacity := len, trace := trace cont @ [Allocate len]\<rparr>"
  using assms by (simp add: DynamicSized_allocate_def)

lemma allocate_null:
  fixes cont :: "('w::len, 'v) Cont"
  assumes "allocator len = 0"
  shows "Proxy.capacity (DynamicSized_allocate allocator cont len) = 0"
  using assms by (simp add: DynamicSized_allocate_def)

text \<open>The calls of a reallocation that moves all \<open>size\<close> elements.\<close>

lemma reallocateAndCopyFor_grow:
  fixes cont :: "('w::len, 'v) Cont"
  assumes "size' cont < len" "allocator len \<noteq> 0"
  shows "DynamicSized_reallocateAndCopyFor allocator cont len =
           cont\<lparr>data := allocator len, capacity := len,
                trace := trace cont @ [Allocate len]
                  @ (if Proxy.data cont \<noteq> 0
                     then (if 0 < size' cont
                           then [MoveWithPlacement (Proxy.data cont) (allocator len) (size' cont)]
                           else [])
                          @ [Destruct (Proxy.data cont) (end' cont),
                             Deallocate (Proxy.data cont) (Proxy.capacity cont)]
                     else [])\<rparr>"
proof -
  have pos: "0 < len" using assms(1) by (metis not_less_iff_gr_or_eq word_not_simps(1) word_gt_0)
  show ?thesis
    using assms pos by (simp add: DynamicSized_reallocateAndCopyFor_def allocate_nonnull
        Let_def end'_def)
qed

lemma reserve_grows:
  fixes cont :: "('w::len, 'v) Cont"
  assumes "Proxy.capacity cont < n"
    and "unat (max n (2 * Proxy.capacity cont)) + 7 < 2 ^ LENGTH('w)"
    and "allocator (getRoundedLength (max n (2 * Proxy.capacity cont))) \<noteq> 0"
  shows "Proxy.capacity (DynamicSized_reserve allocator cont n)
           = getRoundedLength (max n (2 * Proxy.capacity cont))"
    and "n \<le> Proxy.capacity (DynamicSized_reserve allocator cont n)"
proof -
  let ?g = "max n (2 * Proxy.capacity cont)"
  let ?r = "getRoundedLength ?g"
  have "n \<le> ?g" by simp
  also have "?g \<le> ?r" by (rule getRoundedLength_ge [OF assms(2)])
  finally have nr: "n \<le> ?r" .
  then have cr: "Proxy.capacity cont < ?r" using assms(1) by simp
  then have pos: "0 < ?r" by (metis not_less_iff_gr_or_eq word_not_simps(1) word_gt_0)
  have "DynamicSized_reserve allocator cont n = DynamicSized_reallocateAndCopyFor allocator cont ?r"
    using assms(1) cr by (simp add: DynamicSized_reserve_def DynamicSized_reserveExactly_def Let_def)
  moreover have "Proxy.capacity (DynamicSized_reallocateAndCopyFor allocator cont ?r) = ?r"
    using pos assms(3) by (simp add: DynamicSized_reallocateAndCopyFor_def allocate_nonnull Let_def)
  ultimately show "Proxy.capacity (DynamicSized_reserve allocator cont n) = ?r" by simp
  then show "n \<le> Proxy.capacity (DynamicSized_reserve allocator cont n)" using nr by simp
qed

lemma resize_grow_inplace:
  fixes cont :: "('w::len, 'v) Cont"
  assumes "size' cont < len" "len \<le> Proxy.capacity cont"
  shows "DynamicSized_resizeWithInserter allocator cont len inserter =
           cont\<lparr>size' := len,
                trace := trace cont @ map inserter [end' cont ..< Proxy.data cont + unat len]\<rparr>"
  using assms by (simp add: DynamicSized_resizeWithInserter_def Let_def insertLoop_eq)

lemma resize_grow_realloc:
  fixes cont :: "('w::len, 'v) Cont"
  assumes "size' cont < len" "Proxy.capacity cont < len"
    and "unat len + 7 < 2 ^ LENGTH('w)"
    and "allocator (getRoundedLength len) \<noteq> 0"
  shows "DynamicSized_resizeWithInserter allocator cont len inserter =
           cont\<lparr>data := allocator (getRoundedLength len),
                capacity := getRoundedLength len,
                size' := len,
                trace := trace cont @ [Allocate (getRoundedLength len)]
                  @ (if Proxy.data cont \<noteq> 0
                     then (if 0 < size' cont
                           then [MoveWithPlacement (Proxy.data cont)
                                   (allocator (getRoundedLength len)) (size' cont)]
                           else [])
                          @ [Destruct (Proxy.data cont) (end' cont),
                             Deallocate (Proxy.data cont) (Proxy.capacity cont)]
                     else [])
                  @ map inserter [allocator (getRoundedLength len) + unat (size' cont)
                                  ..< allocator (getRoundedLength len) + unat len]\<rparr>"
proof -
  have "len \<le> getRoundedLength len" by (rule getRoundedLength_ge [OF assms(3)])
  then have lt: "size' cont < getRoundedLength len" using assms(1) by simp
  have re: "DynamicSized_reallocateAndCopyFor allocator cont (getRoundedLength len) =
           cont\<lparr>data := allocator (getRoundedLength len), capacity := getRoundedLength len,
                trace := trace cont @ [Allocate (getRoundedLength len)]
                  @ (if Proxy.data cont \<noteq> 0
                     then (if 0 < size' cont
                           then [MoveWithPlacement (Proxy.data cont)
                                   (allocator (getRoundedLength len)) (size' cont)]
                           else [])
                          @ [Destruct (Proxy.data cont) (end' cont),
                             Deallocate (Proxy.data cont) (Proxy.capacity cont)]
                     else [])\<rparr>"
    using lt assms(4) by (rule reallocateAndCopyFor_grow)
  show ?thesis
    using assms(1,2)
    by (simp add: DynamicSized_resizeWithInserter_def Let_def insertLoop_eq re end'_def)
qed

lemma resize_shrink:
  fixes cont :: "('w::len, 'v) Cont"
  assumes "len < size' cont"
  shows "DynamicSized_resizeWithInserter allocator cont len inserter =
           cont\<lparr>size' := len,
                trace := trace cont @ [Destruct (Proxy.data cont + unat len) (end' cont)]\<rparr>"
  using assms by (simp add: DynamicSized_resizeWithInserter_def Let_def)

lemma resize_same:
  fixes cont :: "('w::len, 'v) Cont"
  assumes "len = size' cont"
  shows "DynamicSized_resizeWithInserter allocator cont len inserter = cont"
  using assms by (simp add: DynamicSized_resizeWithInserter_def Let_def)

lemma resize_size:
  fixes cont :: "('w::len, 'v) Cont"
  shows "size' (DynamicSized_resizeWithInserter allocator cont len inserter) = len"
  by (simp add: DynamicSized_resizeWithInserter_def Let_def)

lemma StaticSized_never_signals:
  fixes st :: "('w::len) StaticSized" and cont :: "('w, 'v) Cont"
  shows "\<exists>c. StaticSized_setupData st cont len = Inr c"
    and "\<exists>c. StaticSized_resizeWithInserter st cont len inserter = Inr c"
  by (simp_all add: StaticSized_setupData_def StaticSized_resizeWithInserter_def Let_def)

lemma StaticSized_beyond_capacity_ignored:
  fixes st :: "('w::len) StaticSized" and cont :: "('w, 'v) Cont"
  assumes "StaticSized.capacity st < len"
  shows "StaticSized_reserveExactly st cont len = Inr cont"
    and "StaticSized_reserve st cont len = Inr cont"
    and "StaticSized_resize st cont len = Inr cont"
    and "StaticSized_resize_ref st cont len ref = Inr cont"
  using assms
  by (simp_all add: StaticSized_reserveExactly_def StaticSized_reserve_def StaticSized_resize_def
      StaticSized_resize_ref_def StaticSized_resizeWithInserter_def StaticSized_setupData_def)

text \<open>The capacity of the proxy is left alone or set to the capacity of the strategy.\<close>

lemma StaticSized_capacity_fixed:
  fixes st :: "('w::len) StaticSized" and cont :: "('w, 'v) Cont"
  shows "\<exists>c. StaticSized_setupData st cont len = Inr c
            \<and> (c = cont \<or> Proxy.capacity c = StaticSized.capacity st)"
    and "\<exists>c. StaticSized_shrinkToFit st cont = Inr c
            \<and> Proxy.capacity c = StaticSized.capacity st"
    and "\<exists>c. StaticSized_resizeWithInserter st cont len inserter = Inr c
            \<and> (c = cont \<or> Proxy.capacity c = StaticSized.capacity st)"
  by (simp_all add: StaticSized_setupData_def StaticSized_shrinkToFit_def
      StaticSized_resizeWithInserter_def Let_def)

text \<open>
  C1. A fixed strategy of capacity 4, bound to the buffer at 1024, and a container of
  size 2 on it: \<^verbatim>\<open>reserveExactly(5)\<close>, \<^verbatim>\<open>reserve(5)\<close>, \<^verbatim>\<open>resize(5)\<close> and
  \<^verbatim>\<open>resize(5, ref)\<close> all return normally and leave the container as it was. No
  violation is signalled.
\<close>

theorem C1_static_growth_not_signalled:
  "StaticSized_reserveExactly \<lparr>StaticSized.data = 1024, capacity = 4 :: 64 word\<rparr>
      \<lparr>Proxy.data = 1024, capacity = 4 :: 64 word, size' = 2, trace = ([] :: (64 word, nat) event list)\<rparr> 5
     = Inr \<lparr>Proxy.data = 1024, capacity = 4 :: 64 word, size' = 2, trace = []\<rparr>
   \<and> StaticSized_reserve \<lparr>StaticSized.data = 1024, capacity = 4 :: 64 word\<rparr>
      \<lparr>Proxy.data = 1024, capacity = 4 :: 64 word, size' = 2, trace = ([] :: (64 word, nat) event list)\<rparr> 5
     = Inr \<lparr>Proxy.data = 1024, capacity = 4 :: 64 word, size' = 2, trace = []\<rparr>
   \<and> StaticSized_resize \<lparr>StaticSized.data = 1024, capacity = 4 :: 64 word\<rparr>
      \<lparr>Proxy.data = 1024, capacity = 4 :: 64 word, size' = 2, trace = ([] :: (64 word, nat) event list)\<rparr> 5
     = Inr \<lparr>Proxy.data = 1024, capacity = 4 :: 64 word, size' = 2, trace = []\<rparr>
   \<and> StaticSized_resize_ref \<lparr>StaticSized.data = 1024, capacity = 4 :: 64 word\<rparr>
      \<lparr>Proxy.data = 1024, capacity = 4 :: 64 word, size' = 2, trace = ([] :: (64 word, nat) event list)\<rparr> 5 7
     = Inr \<lparr>Proxy.data = 1024, capacity = 4 :: 64 word, size' = 2, trace = []\<rparr>"
  by (simp add: StaticSized_reserveExactly_def StaticSized_reserve_def StaticSized_resize_def
      StaticSized_resize_ref_def StaticSized_resizeWithInserter_def StaticSized_setupData_def)

text \<open>
  C4, as the code has it. \<^verbatim>\<open>reserve(n)\<close> with \<open>n \<le> c\<close> changes nothing. With \<open>n > c\<close>,
  provided that rounding the goal \<open>max(n, 2c)\<close> (the product taken in \<^verbatim>\<open>size_type\<close>) does
  not wrap around and that the allocator returns a buffer, the new capacity is exactly
  \<open>roundUp8(max(n, 2c))\<close>, that is the goal rounded up to the next multiple of 8; it is
  at least \<open>n\<close> and a multiple of 8. Capacity 0 is the case \<open>c = 0\<close>.
\<close>

theorem C4_reserve_growth:
  fixes cont :: "('w::len, 'v) Cont"
  shows "(n \<le> Proxy.capacity cont \<longrightarrow> DynamicSized_reserve allocator cont n = cont)
    \<and> (Proxy.capacity cont < n
         \<and> unat (max n (2 * Proxy.capacity cont)) + 7 < 2 ^ LENGTH('w)
         \<and> allocator (getRoundedLength (max n (2 * Proxy.capacity cont))) \<noteq> 0
       \<longrightarrow> Proxy.capacity (DynamicSized_reserve allocator cont n)
             = getRoundedLength (max n (2 * Proxy.capacity cont))
           \<and> unat (Proxy.capacity (DynamicSized_reserve allocator cont n))
             = (unat (max n (2 * Proxy.capacity cont)) + 7) div 8 * 8
           \<and> n \<le> Proxy.capacity (DynamicSized_reserve allocator cont n)
           \<and> unat (Proxy.capacity (DynamicSized_reserve allocator cont n)) mod 8 = 0)"
proof (intro conjI impI)
  assume "n \<le> Proxy.capacity cont"
  then show "DynamicSized_reserve allocator cont n = cont"
    by (simp add: DynamicSized_reserve_def Let_def)
next
  assume h: "Proxy.capacity cont < n
         \<and> unat (max n (2 * Proxy.capacity cont)) + 7 < 2 ^ LENGTH('w)
         \<and> allocator (getRoundedLength (max n (2 * Proxy.capacity cont))) \<noteq> 0"
  then show c: "Proxy.capacity (DynamicSized_reserve allocator cont n)
             = getRoundedLength (max n (2 * Proxy.capacity cont))"
    by (simp add: reserve_grows(1))
  from h show "n \<le> Proxy.capacity (DynamicSized_reserve allocator cont n)"
    by (simp add: reserve_grows(2))
  from h show "unat (Proxy.capacity (DynamicSized_reserve allocator cont n))
             = (unat (max n (2 * Proxy.capacity cont)) + 7) div 8 * 8"
    by (simp only: c getRoundedLength_unat)
  show "unat (Proxy.capacity (DynamicSized_reserve allocator cont n)) mod 8 = 0"
    by (simp only: c getRoundedLength_mod8)
qed

theorem C4_reserve_growth_witness:
  "DynamicSized_reserve (\<lambda>n. 4096)
      \<lparr>Proxy.data = 1024, capacity = 16 :: 64 word, size' = 3, trace = ([] :: (64 word, nat) event list)\<rparr> 16
     = \<lparr>Proxy.data = 1024, capacity = 16 :: 64 word, size' = 3, trace = []\<rparr>
   \<and> Proxy.capacity (DynamicSized_reserve (\<lambda>n. 4096)
      \<lparr>Proxy.data = 0, capacity = 0 :: 64 word, size' = 0, trace = ([] :: (64 word, nat) event list)\<rparr> 5) = 8
   \<and> Proxy.capacity (DynamicSized_reserve (\<lambda>n. 4096)
      \<lparr>Proxy.data = 1024, capacity = 16 :: 64 word, size' = 16, trace = ([] :: (64 word, nat) event list)\<rparr> 17) = 32"
  using C4_reserve_growth [where n = 16 and allocator = "\<lambda>n. 4096"
      and cont = "\<lparr>Proxy.data = 1024, capacity = 16 :: 64 word, size' = 3, trace = ([] :: (64 word, nat) event list)\<rparr>"]
    C4_reserve_growth [where n = 5 and allocator = "\<lambda>n. 4096"
      and cont = "\<lparr>Proxy.data = 0, capacity = 0 :: 64 word, size' = 0, trace = ([] :: (64 word, nat) event list)\<rparr>"]
    C4_reserve_growth [where n = 17 and allocator = "\<lambda>n. 4096"
      and cont = "\<lparr>Proxy.data = 1024, capacity = 16 :: 64 word, size' = 16, trace = ([] :: (64 word, nat) event list)\<rparr>"]
  by (simp add: getRoundedLength_def)

text \<open>
  C4 as stated fails at both ends. From capacity 0, \<^verbatim>\<open>reserve\<close> of the largest
  \<^verbatim>\<open>size_type\<close> value (64 bits here) rounds the goal to 0 and leaves capacity 0; and
  when the allocator returns \<^verbatim>\<open>nullptr\<close>, \<^verbatim>\<open>allocate\<close> sets capacity 0.
\<close>

theorem C4_counterexample:
  "\<not> (18446744073709551615 :: 64 word) \<le> Proxy.capacity (DynamicSized_reserve (\<lambda>n. 4096)
      \<lparr>Proxy.data = 0, capacity = 0 :: 64 word, size' = 0, trace = ([] :: (64 word, nat) event list)\<rparr>
      18446744073709551615)
   \<and> \<not> (5 :: 64 word) \<le> Proxy.capacity (DynamicSized_reserve (\<lambda>n. 0)
      \<lparr>Proxy.data = 0, capacity = 0 :: 64 word, size' = 0, trace = ([] :: (64 word, nat) event list)\<rparr> 5)"
  by (simp add: DynamicSized_reserve_def DynamicSized_reserveExactly_def getRoundedLength_def
      DynamicSized_reallocateAndCopyFor_def DynamicSized_allocate_def Let_def)


text \<open>
  C3, as the code has it. \<^verbatim>\<open>resize(len)\<close> of the dynamic strategy always leaves
  \<open>size = len\<close>. With \<open>len > size\<close> and \<open>len \<le> capacity\<close> it keeps buffer and capacity
  and calls the inserter once for each of the \<open>len - size\<close> positions from the old end to
  \<open>data + len\<close>. With \<open>len > size\<close> and \<open>len > capacity\<close> it does not go through
  \<^verbatim>\<open>reserve\<close>: it reallocates to \<open>roundUp8(len)\<close>, without the doubling (provided
  \<open>len + 7\<close> does not wrap and the allocator returns a buffer), moves the \<open>size\<close> old
  elements, destroys and frees the old buffer, and calls the inserter once for each of
  the \<open>len - size\<close> trailing positions of the new buffer. With \<open>len < size\<close> it destroys
  the range of the \<open>size - len\<close> trailing elements and nothing else; with \<open>len = size\<close>
  it does nothing.
\<close>

theorem C3_resize_amended:
  fixes cont :: "('w::len, 'v) Cont"
  shows
    "size' (DynamicSized_resizeWithInserter allocator cont len inserter) = len
   \<and> (size' cont < len \<and> len \<le> Proxy.capacity cont \<longrightarrow>
        DynamicSized_resizeWithInserter allocator cont len inserter =
          cont\<lparr>size' := len,
               trace := trace cont @ map inserter [end' cont ..< Proxy.data cont + unat len]\<rparr>
        \<and> length [end' cont ..< Proxy.data cont + unat len] = unat len - unat (size' cont))
   \<and> (size' cont < len \<and> Proxy.capacity cont < len \<and> unat len + 7 < 2 ^ LENGTH('w)
        \<and> allocator (getRoundedLength len) \<noteq> 0 \<longrightarrow>
        DynamicSized_resizeWithInserter allocator cont len inserter =
          cont\<lparr>data := allocator (getRoundedLength len),
               capacity := getRoundedLength len,
               size' := len,
               trace := trace cont @ [Allocate (getRoundedLength len)]
                 @ (if Proxy.data cont \<noteq> 0
                    then (if 0 < size' cont
                          then [MoveWithPlacement (Proxy.data cont)
                                  (allocator (getRoundedLength len)) (size' cont)]
                          else [])
                         @ [Destruct (Proxy.data cont) (end' cont),
                            Deallocate (Proxy.data cont) (Proxy.capacity cont)]
                    else [])
                 @ map inserter [allocator (getRoundedLength len) + unat (size' cont)
                                 ..< allocator (getRoundedLength len) + unat len]\<rparr>
        \<and> length [allocator (getRoundedLength len) + unat (size' cont)
                   ..< allocator (getRoundedLength len) + unat len]
            = unat len - unat (size' cont))
   \<and> (len < size' cont \<longrightarrow>
        DynamicSized_resizeWithInserter allocator cont len inserter =
          cont\<lparr>size' := len,
               trace := trace cont @ [Destruct (Proxy.data cont + unat len) (end' cont)]\<rparr>
        \<and> end' cont - (Proxy.data cont + unat len) = unat (size' cont) - unat len)
   \<and> (len = size' cont \<longrightarrow>
        DynamicSized_resizeWithInserter allocator cont len inserter = cont)"
proof (intro conjI impI)
  show "size' (DynamicSized_resizeWithInserter allocator cont len inserter) = len"
    by (rule resize_size)
next
  assume h: "size' cont < len \<and> len \<le> Proxy.capacity cont"
  then show "DynamicSized_resizeWithInserter allocator cont len inserter =
          cont\<lparr>size' := len,
               trace := trace cont @ map inserter [end' cont ..< Proxy.data cont + unat len]\<rparr>"
    by (simp add: resize_grow_inplace)
  show "length [end' cont ..< Proxy.data cont + unat len] = unat len - unat (size' cont)"
    by (simp add: end'_def)
next
  assume h: "size' cont < len \<and> Proxy.capacity cont < len \<and> unat len + 7 < 2 ^ LENGTH('w)
        \<and> allocator (getRoundedLength len) \<noteq> 0"
  then show "DynamicSized_resizeWithInserter allocator cont len inserter =
          cont\<lparr>data := allocator (getRoundedLength len),
               capacity := getRoundedLength len,
               size' := len,
               trace := trace cont @ [Allocate (getRoundedLength len)]
                 @ (if Proxy.data cont \<noteq> 0
                    then (if 0 < size' cont
                          then [MoveWithPlacement (Proxy.data cont)
                                  (allocator (getRoundedLength len)) (size' cont)]
                          else [])
                         @ [Destruct (Proxy.data cont) (end' cont),
                            Deallocate (Proxy.data cont) (Proxy.capacity cont)]
                    else [])
                 @ map inserter [allocator (getRoundedLength len) + unat (size' cont)
                                 ..< allocator (getRoundedLength len) + unat len]\<rparr>"
    by (intro resize_grow_realloc) simp_all
  show "length [allocator (getRoundedLength len) + unat (size' cont)
                   ..< allocator (getRoundedLength len) + unat len]
            = unat len - unat (size' cont)"
    by simp
next
  assume h: "len < size' cont"
  then show "DynamicSized_resizeWithInserter allocator cont len inserter =
          cont\<lparr>size' := len,
               trace := trace cont @ [Destruct (Proxy.data cont + unat len) (end' cont)]\<rparr>"
    by (rule resize_shrink)
  show "end' cont - (Proxy.data cont + unat len) = unat (size' cont) - unat len"
    by (simp add: end'_def)
next
  assume "len = size' cont"
  then show "DynamicSized_resizeWithInserter allocator cont len inserter = cont"
    by (rule resize_same)
qed

theorem C3_resize_amended_witness:
  "DynamicSized_resize (\<lambda>n. 4096)
      \<lparr>Proxy.data = 1024, capacity = 16 :: 64 word, size' = 3,
       trace = ([] :: (64 word, nat) event list)\<rparr> 5
     = \<lparr>Proxy.data = 1024, capacity = 16, size' = 5,
        trace = [PlaceDefaultTo 1027, PlaceDefaultTo 1028]\<rparr>
   \<and> DynamicSized_resize (\<lambda>n. 4096)
      \<lparr>Proxy.data = 1024, capacity = 16 :: 64 word, size' = 16,
       trace = ([] :: (64 word, nat) event list)\<rparr> 17
     = \<lparr>Proxy.data = 4096, capacity = 24, size' = 17,
        trace = [Allocate 24, MoveWithPlacement 1024 4096 16, Destruct 1024 1040,
                 Deallocate 1024 16, PlaceDefaultTo 4112]\<rparr>
   \<and> DynamicSized_resize (\<lambda>n. 4096)
      \<lparr>Proxy.data = 1024, capacity = 16 :: 64 word, size' = 5,
       trace = ([] :: (64 word, nat) event list)\<rparr> 3
     = \<lparr>Proxy.data = 1024, capacity = 16, size' = 3, trace = [Destruct 1027 1029]\<rparr>
   \<and> DynamicSized_resize (\<lambda>n. 4096)
      \<lparr>Proxy.data = 1024, capacity = 16 :: 64 word, size' = 5,
       trace = ([] :: (64 word, nat) event list)\<rparr> 5
     = \<lparr>Proxy.data = 1024, capacity = 16, size' = 5, trace = []\<rparr>"
  using
    C3_resize_amended [where len = 5 and allocator = "\<lambda>n. 4096" and inserter = PlaceDefaultTo
      and cont = "\<lparr>Proxy.data = 1024, capacity = 16 :: 64 word, size' = 3,
                    trace = ([] :: (64 word, nat) event list)\<rparr>"]
    C3_resize_amended [where len = 17 and allocator = "\<lambda>n. 4096" and inserter = PlaceDefaultTo
      and cont = "\<lparr>Proxy.data = 1024, capacity = 16 :: 64 word, size' = 16,
                    trace = ([] :: (64 word, nat) event list)\<rparr>"]
    C3_resize_amended [where len = 3 and allocator = "\<lambda>n. 4096" and inserter = PlaceDefaultTo
      and cont = "\<lparr>Proxy.data = 1024, capacity = 16 :: 64 word, size' = 5,
                    trace = ([] :: (64 word, nat) event list)\<rparr>"]
    C3_resize_amended [where len = 5 and allocator = "\<lambda>n. 4096" and inserter = PlaceDefaultTo
      and cont = "\<lparr>Proxy.data = 1024, capacity = 16 :: 64 word, size' = 5,
                    trace = ([] :: (64 word, nat) event list)\<rparr>"]
  by (simp add: DynamicSized_resize_def getRoundedLength_def end'_def upt_conv_Cons)

text \<open>
  C3 as stated fails: with capacity 16 and size 16, \<^verbatim>\<open>resize(17)\<close> leaves capacity
  \<open>24 = roundUp8(17)\<close>, where \<^verbatim>\<open>reserve(17)\<close> establishes \<open>32 = roundUp8(max(17, 2 * 16))\<close>.
\<close>

theorem C3_counterexample:
  "Proxy.capacity (DynamicSized_resize (\<lambda>n. 4096)
      \<lparr>Proxy.data = 1024, capacity = 16 :: 64 word, size' = 16, trace = ([] :: (64 word, nat) event list)\<rparr> 17) = 24
   \<and> Proxy.capacity (DynamicSized_reserve (\<lambda>n. 4096)
      \<lparr>Proxy.data = 1024, capacity = 16 :: 64 word, size' = 16, trace = ([] :: (64 word, nat) event list)\<rparr> 17) = 32
   \<and> getRoundedLength (max 17 (2 * 16)) = (32 :: 64 word)"
  by (simp add: DynamicSized_resize_def DynamicSized_resizeWithInserter_def
      DynamicSized_reserve_def DynamicSized_reserveExactly_def getRoundedLength_def
      DynamicSized_reallocateAndCopyFor_def DynamicSized_allocate_def Let_def insertLoop_eq)


subsection \<open>Ring-buffer iterator\<close>

text \<open>
  C8, as the code has it. Increment and decrement, in prefix and postfix form, change
  the logical offset by one and leave the translator reference and the buffer address
  as they were; dereference adds to the buffer address the physical index the translator
  gives for the logical offset when the access is made; and two iterators compare equal
  exactly when they hold the same logical offset and reference the same translator,
  whatever buffer address they hold.
\<close>

theorem C8_fifo_iterator:
  "AFifoIterator_inc it = it\<lparr>ix := ix it + 1\<rparr>
   \<and> AFifoIterator_dec it = it\<lparr>ix := ix it - 1\<rparr>
   \<and> fifo (AFifoIterator_inc it) = fifo it \<and> fifo (AFifoIterator_dec it) = fifo it
   \<and> FifoIterator.data (AFifoIterator_inc it) = FifoIterator.data it
   \<and> FifoIterator.data (AFifoIterator_dec it) = FifoIterator.data it
   \<and> snd (AFifoIterator_postinc it) = AFifoIterator_inc it
   \<and> snd (AFifoIterator_postdec it) = AFifoIterator_dec it
   \<and> fst (AFifoIterator_postinc it) = \<lparr>ix = ix it, fifo = fifo it\<rparr>
   \<and> fst (AFifoIterator_postdec it) = \<lparr>ix = ix it, fifo = fifo it\<rparr>
   \<and> FifoIterator_get indexing it = FifoIterator.data it + unat (indexing (fifo it) (ix it))
   \<and> (AFifoIterator_eq a b \<longleftrightarrow> ix a = ix b \<and> fifo a = fifo b)
   \<and> (AFifoIterator_neq a b \<longleftrightarrow> \<not> (ix a = ix b \<and> fifo a = fifo b))
   \<and> AFifoIterator_eq (a\<lparr>FifoIterator.data := d\<rparr>) (b\<lparr>FifoIterator.data := d'\<rparr>)
       = AFifoIterator_eq a b"
  by (simp add: AFifoIterator_inc_def AFifoIterator_dec_def AFifoIterator_postinc_def
      AFifoIterator_postdec_def AFifoIterator.truncate_def FifoIterator_get_def
      AFifoIterator_getIndexFromFront_def AFifoIterator_eq_def AFifoIterator_neq_def)

text \<open>
  C8 as stated fails in its first clause: the iterator that is dereferenced also stores
  the address of the buffer. Two iterators with the same logical offset and the same
  translator, on buffers at 100 and at 200, compare equal, are different iterators, and
  dereference to different addresses. The translator is that of a ring of capacity 4
  with its front at physical index 2, so that logical offset 3 is physical index 1.
\<close>

theorem C8_counterexample:
  "AFifoIterator_eq \<lparr>ix = 3, fifo = 7, FifoIterator.data = 100\<rparr>
                    \<lparr>ix = 3, fifo = 7, FifoIterator.data = 200\<rparr>
   \<and> \<lparr>ix = 3, fifo = 7, FifoIterator.data = 100\<rparr>
       \<noteq> \<lparr>ix = 3, fifo = 7, FifoIterator.data = 200\<rparr>
   \<and> FifoIterator_get (\<lambda>p i. (2 + i) mod 4) \<lparr>ix = 3, fifo = 7, FifoIterator.data = 100\<rparr>
       = 101
   \<and> FifoIterator_get (\<lambda>p i. (2 + i) mod 4) \<lparr>ix = 3, fifo = 7, FifoIterator.data = 200\<rparr>
       = 201"
  by (simp add: AFifoIterator_eq_def FifoIterator_get_def AFifoIterator_getIndexFromFront_def)

subsection \<open>Sorted engine\<close>

declare lowerBound.simps [simp del]

lemma lowerBound_inv:
  assumes "sorted (map keyOf xs)" "lo \<le> hi" "hi \<le> length xs"
    and "\<forall>i<lo. keyOf (xs ! i) < key"
    and "\<forall>i. hi \<le> i \<and> i < length xs \<longrightarrow> key \<le> keyOf (xs ! i)"
  shows "lo \<le> lowerBound keyOf xs key lo hi \<and> lowerBound keyOf xs key lo hi \<le> hi
       \<and> (\<forall>i<lowerBound keyOf xs key lo hi. keyOf (xs ! i) < key)
       \<and> (\<forall>i. lowerBound keyOf xs key lo hi \<le> i \<and> i < length xs \<longrightarrow> key \<le> keyOf (xs ! i))"
  using assms
proof (induction keyOf xs key lo hi rule: lowerBound.induct)
  case (1 keyOf xs key lo hi)
  show ?case
  proof (cases "lo < hi")
    case False
    then show ?thesis using "1.prems" by (subst (1 2 3 4) lowerBound.simps) auto
  next
    case True
    define mid where "mid = lo + (hi - lo) div 2"
    have mid: "lo \<le> mid" "mid < hi" using True by (auto simp: mid_def)
    have srt: "\<And>i j. i \<le> j \<Longrightarrow> j < length xs \<Longrightarrow> keyOf (xs ! i) \<le> keyOf (xs ! j)"
      using "1.prems"(1) by (simp add: sorted_iff_nth_mono)
    show ?thesis
    proof (cases "keyOf (xs ! mid) < key")
      case k: True
      have "\<forall>i<mid + 1. keyOf (xs ! i) < key"
      proof (intro allI impI)
        fix i assume "i < mid + 1"
        then have "keyOf (xs ! i) \<le> keyOf (xs ! mid)"
          using srt [of i mid] mid "1.prems"(3) by simp
        then show "keyOf (xs ! i) < key" using k by simp
      qed
      with "1.IH"(1) [OF True mid_def k "1.prems"(1)] mid "1.prems"
      have "mid + 1 \<le> lowerBound keyOf xs key (mid + 1) hi
       \<and> lowerBound keyOf xs key (mid + 1) hi \<le> hi
       \<and> (\<forall>i<lowerBound keyOf xs key (mid + 1) hi. keyOf (xs ! i) < key)
       \<and> (\<forall>i. lowerBound keyOf xs key (mid + 1) hi \<le> i \<and> i < length xs
              \<longrightarrow> key \<le> keyOf (xs ! i))"
        by simp
      moreover have "lowerBound keyOf xs key lo hi = lowerBound keyOf xs key (mid + 1) hi"
        using True k by (subst lowerBound.simps) (simp add: mid_def Let_def)
      ultimately show ?thesis using mid by simp
    next
      case k: False
      have "\<forall>i. mid \<le> i \<and> i < length xs \<longrightarrow> key \<le> keyOf (xs ! i)"
      proof (intro allI impI)
        fix i assume "mid \<le> i \<and> i < length xs"
        then have "keyOf (xs ! mid) \<le> keyOf (xs ! i)" using srt by simp
        then show "key \<le> keyOf (xs ! i)" using k by simp
      qed
      with "1.IH"(2) [OF True mid_def k "1.prems"(1)] mid "1.prems"
      have "lo \<le> lowerBound keyOf xs key lo mid \<and> lowerBound keyOf xs key lo mid \<le> mid
       \<and> (\<forall>i<lowerBound keyOf xs key lo mid. keyOf (xs ! i) < key)
       \<and> (\<forall>i. lowerBound keyOf xs key lo mid \<le> i \<and> i < length xs \<longrightarrow> key \<le> keyOf (xs ! i))"
        by simp
      moreover have "lowerBound keyOf xs key lo hi = lowerBound keyOf xs key lo mid"
        using True k by (subst lowerBound.simps) (simp add: mid_def Let_def)
      ultimately show ?thesis using mid by simp
    qed
  qed
qed

lemma lowerBound_spec:
  assumes "sorted (map keyOf xs)"
  shows "lowerBound keyOf xs key 0 (length xs) \<le> length xs"
    and "\<And>i. i < lowerBound keyOf xs key 0 (length xs) \<Longrightarrow> keyOf (xs ! i) < key"
    and "\<And>i. lowerBound keyOf xs key 0 (length xs) \<le> i \<Longrightarrow> i < length xs
           \<Longrightarrow> key \<le> keyOf (xs ! i)"
proof -
  have top: "\<forall>i. length xs \<le> i \<and> i < length xs \<longrightarrow> key \<le> keyOf (xs ! i)" by auto
  have bot: "\<forall>i<(0::nat). keyOf (xs ! i) < key" by simp
  note inv = lowerBound_inv [OF assms _ _ bot top]
  show "lowerBound keyOf xs key 0 (length xs) \<le> length xs" using inv by simp
  show "\<And>i. i < lowerBound keyOf xs key 0 (length xs) \<Longrightarrow> keyOf (xs ! i) < key"
    using inv by simp
  show "\<And>i. lowerBound keyOf xs key 0 (length xs) \<le> i \<Longrightarrow> i < length xs
           \<Longrightarrow> key \<le> keyOf (xs ! i)"
    using inv by simp
qed

lemma lowerBound_found_iff:
  assumes "sorted (map keyOf xs)"
  shows "(lowerBound keyOf xs key 0 (length xs) < length xs
          \<and> keyOf (xs ! lowerBound keyOf xs key 0 (length xs)) = key)
         \<longleftrightarrow> key \<in> keyOf ` set xs"
proof
  let ?p = "lowerBound keyOf xs key 0 (length xs)"
  assume h: "?p < length xs \<and> keyOf (xs ! ?p) = key"
  then have "xs ! ?p \<in> set xs" by simp
  then have "keyOf (xs ! ?p) \<in> keyOf ` set xs" by (rule imageI)
  with h show "key \<in> keyOf ` set xs" by metis
next
  let ?p = "lowerBound keyOf xs key 0 (length xs)"
  assume "key \<in> keyOf ` set xs"
  then obtain j where j: "j < length xs" "keyOf (xs ! j) = key"
    by (auto simp: in_set_conv_nth)
  have pj: "?p \<le> j"
  proof (rule ccontr)
    assume "\<not> ?p \<le> j"
    then have "j < ?p" by simp
    then have "keyOf (xs ! j) < key" by (rule lowerBound_spec(2) [OF assms])
    with j(2) show False by simp
  qed
  then have lt: "?p < length xs" using j(1) by simp
  have "key \<le> keyOf (xs ! ?p)" using lt by (intro lowerBound_spec(3) [OF assms]) simp_all
  moreover have "keyOf (xs ! ?p) \<le> keyOf (xs ! j)"
    using assms pj j(1) by (simp add: sorted_iff_nth_mono)
  ultimately have "keyOf (xs ! ?p) = key" using j(2) by simp
  with lt show "?p < length xs \<and> keyOf (xs ! ?p) = key" by simp
qed

lemma findSortedPosition_eq:
  assumes "sorted (map keyOf xs)"
  shows "findSortedPosition keyOf xs key
           = (int (lowerBound keyOf xs key 0 (length xs)), key \<in> keyOf ` set xs)"
  using lowerBound_found_iff [OF assms, where key = key]
  by (simp add: findSortedPosition_def Let_def)


lemma strict_sorted_insert_at:
  fixes keyOf :: "'i \<Rightarrow> 'k::linorder"
  assumes "sorted_wrt (<) (map keyOf xs)" "p \<le> length xs"
    and "\<And>i. i < p \<Longrightarrow> keyOf (xs ! i) < keyOf item"
    and "\<And>i. p \<le> i \<Longrightarrow> i < length xs \<Longrightarrow> keyOf item < keyOf (xs ! i)"
  shows "sorted_wrt (<) (map keyOf (take p xs @ [item] @ drop p xs))"
proof -
  have "map keyOf xs = map keyOf (take p xs) @ map keyOf (drop p xs)"
    by (metis append_take_drop_id map_append)
  with assms(1)
  have s: "sorted_wrt (<) (map keyOf (take p xs) @ map keyOf (drop p xs))"
    by simp
  have a: "\<forall>x\<in>set (take p xs). keyOf x < keyOf item"
    using assms(2,3) by (auto simp: in_set_conv_nth)
  have b: "\<forall>y\<in>set (drop p xs). keyOf item < keyOf y"
  proof
    fix y assume "y \<in> set (drop p xs)"
    then obtain i where "i < length xs - p" "y = xs ! (p + i)"
      by (auto simp: in_set_conv_nth)
    then show "keyOf item < keyOf y" using assms(4) [of "p + i"] by simp
  qed
  show ?thesis using s a b by (auto simp: sorted_wrt_append)
qed

lemma strict_sorted_sorted:
  fixes ks :: "'k::linorder list"
  shows "sorted_wrt (<) ks \<Longrightarrow> sorted ks"
  by (rule sorted_wrt_mono_rel [where P = "(<)"]) auto

text \<open>
  C2. On a sequence sorted by key, \<^verbatim>\<open>findSortedPosition\<close> returns
  \<open>(position, exactMatchFound)\<close> where \<open>position\<close> lies between \<^verbatim>\<open>begin()\<close> and
  \<^verbatim>\<open>end()\<close> and is the first position whose key is not less than \<open>key\<close>: every item
  before it has a smaller key, and no item from it on has. \<open>exactMatchFound\<close> is true
  iff the position holds an item whose key is \<open>key\<close>, so that the returned position is
  the matching item, and iff the key is in the sequence.
\<close>

theorem C2_findSortedPosition:
  assumes "sorted (map keyOf xs)"
  shows "0 \<le> fst (findSortedPosition keyOf xs key)
    \<and> fst (findSortedPosition keyOf xs key) \<le> int (length xs)
    \<and> (\<forall>i. int i < fst (findSortedPosition keyOf xs key) \<longrightarrow> keyOf (xs ! i) < key)
    \<and> (\<forall>i. fst (findSortedPosition keyOf xs key) \<le> int i \<and> i < length xs
            \<longrightarrow> \<not> keyOf (xs ! i) < key)
    \<and> (snd (findSortedPosition keyOf xs key)
         \<longleftrightarrow> fst (findSortedPosition keyOf xs key) < int (length xs)
             \<and> keyOf (xs ! nat (fst (findSortedPosition keyOf xs key))) = key)
    \<and> (snd (findSortedPosition keyOf xs key) \<longleftrightarrow> key \<in> keyOf ` set xs)"
proof -
  let ?p = "lowerBound keyOf xs key 0 (length xs)"
  have ge: "\<not> keyOf (xs ! i) < key" if "?p \<le> i" "i < length xs" for i
    using lowerBound_spec(3) [OF assms that] by simp
  show ?thesis
    using lowerBound_spec(1,2) [OF assms, where key = key] ge
      lowerBound_found_iff [OF assms, where key = key]
    by (simp add: findSortedPosition_eq [OF assms])
qed

theorem C2_findSortedPosition_witness:
  "sorted (map fst [(1 :: int, 10 :: int), (3, 30), (4, 40), (5, 50)])
   \<and> findSortedPosition fst [(1 :: int, 10 :: int), (3, 30), (4, 40), (5, 50)] 3 = (1, True)
   \<and> fst ([(1 :: int, 10 :: int), (3, 30), (4, 40), (5, 50)] ! nat 1) = 3
   \<and> findSortedPosition fst [(1 :: int, 10 :: int), (3, 30), (4, 40), (5, 50)] 2 = (1, False)"
proof -
  have h: "sorted (map fst [(1 :: int, 10 :: int), (3, 30), (4, 40), (5, 50)])" by simp
  have e1: "findSortedPosition fst [(1 :: int, 10 :: int), (3, 30), (4, 40), (5, 50)] 3
              = (1, True)"
    by code_simp
  have e2: "findSortedPosition fst [(1 :: int, 10 :: int), (3, 30), (4, 40), (5, 50)] 2
              = (1, False)"
    by code_simp
  show ?thesis
    using h e1 e2 C2_findSortedPosition [OF h, where key = 3]
      C2_findSortedPosition [OF h, where key = 2]
    by simp
qed

subsection \<open>insertUnique\<close>

lemma insertUnique_present:
  assumes "sorted (map keyOf xs)" "keyOf item \<in> keyOf ` set xs"
  shows "insertUnique keyOf xs item
           = (xs, fst (findSortedPosition keyOf xs (keyOf item)), False)"
  using assms(2)
  by (simp add: insertUnique_def insertUnique_with_def findSortedPosition_eq [OF assms(1)])

lemma insertUnique_absent:
  assumes "sorted (map keyOf xs)" "keyOf item \<notin> keyOf ` set xs"
  shows "insertUnique keyOf xs item
           = (take (lowerBound keyOf xs (keyOf item) 0 (length xs)) xs @ [item]
                @ drop (lowerBound keyOf xs (keyOf item) 0 (length xs)) xs,
              int (lowerBound keyOf xs (keyOf item) 0 (length xs)), True)"
  using assms(2)
  by (simp add: insertUnique_def insertUnique_with_def MapBase_insertTo_def
      findSortedPosition_eq [OF assms(1)])

lemma insertUnique_strict_sorted:
  fixes keyOf :: "'i \<Rightarrow> 'k::linorder"
  assumes "sorted_wrt (<) (map keyOf xs)"
  shows "sorted_wrt (<) (map keyOf (fst (insertUnique keyOf xs item)))"
proof (cases "keyOf item \<in> keyOf ` set xs")
  case True
  then show ?thesis
    using assms by (simp add: insertUnique_present strict_sorted_sorted)
next
  case False
  let ?p = "lowerBound keyOf xs (keyOf item) 0 (length xs)"
  have srt: "sorted (map keyOf xs)" using assms by (rule strict_sorted_sorted)
  have le: "?p \<le> length xs" by (rule lowerBound_spec(1) [OF srt])
  have below: "keyOf (xs ! i) < keyOf item" if "i < ?p" for i
    using that by (rule lowerBound_spec(2) [OF srt])
  have above: "keyOf item < keyOf (xs ! i)" if "?p \<le> i" "i < length xs" for i
  proof -
    have "keyOf item \<le> keyOf (xs ! i)" using that by (rule lowerBound_spec(3) [OF srt])
    moreover have "xs ! i \<in> set xs" using that by simp
    then have "keyOf (xs ! i) \<in> keyOf ` set xs" by (rule imageI)
    then have "keyOf (xs ! i) \<noteq> keyOf item" using False by metis
    ultimately show ?thesis by simp
  qed
  have "sorted_wrt (<) (map keyOf (take ?p xs @ [item] @ drop ?p xs))"
    using assms le below above by (rule strict_sorted_insert_at)
  then show ?thesis using False srt by (simp add: insertUnique_absent)
qed

lemma insertAll_snoc:
  "insertAll keyOf (items @ [item]) = fst (insertUnique keyOf (insertAll keyOf items) item)"
  by (simp add: insertAll_def)

lemma insertAll_strict_sorted:
  fixes keyOf :: "'i \<Rightarrow> 'k::linorder"
  shows "sorted_wrt (<) (map keyOf (insertAll keyOf items))"
proof (induction items rule: rev_induct)
  case Nil
  then show ?case by (simp add: insertAll_def)
next
  case (snoc item items)
  then show ?case by (simp only: insertAll_snoc insertUnique_strict_sorted)
qed

text \<open>
  C6. After any sequence of \<^verbatim>\<open>insertUnique\<close> calls on an empty container the keys of
  the stored sequence are strictly increasing: non-decreasing and without two equal
  keys; \<^verbatim>\<open>insertUnique\<close> keeps a strictly increasing sequence so. Inserting an item
  whose key is present changes nothing and returns \<open>inserted = False\<close>. Inserting the
  keys 5, 1, 3, 1, 4 gives the sequence 1, 3, 4, 5.
\<close>

theorem C6_insertUnique_sorted_unique:
  fixes keyOf :: "'i \<Rightarrow> 'k::linorder"
  shows "sorted_wrt (<) (map keyOf (insertAll keyOf items))
    \<and> (sorted_wrt (<) (map keyOf xs) \<longrightarrow>
         sorted_wrt (<) (map keyOf (fst (insertUnique keyOf xs item))))
    \<and> (sorted (map keyOf xs) \<and> keyOf item \<in> keyOf ` set xs \<longrightarrow>
         fst (insertUnique keyOf xs item) = xs \<and> snd (snd (insertUnique keyOf xs item)) = False)
    \<and> insertAll id [5 :: int, 1, 3, 1, 4] = [1, 3, 4, 5]"
proof (intro conjI impI)
  show "sorted_wrt (<) (map keyOf (insertAll keyOf items))" by (rule insertAll_strict_sorted)
  show "sorted_wrt (<) (map keyOf (fst (insertUnique keyOf xs item)))"
    if "sorted_wrt (<) (map keyOf xs)" using that by (rule insertUnique_strict_sorted)
  show "fst (insertUnique keyOf xs item) = xs"
    if "sorted (map keyOf xs) \<and> keyOf item \<in> keyOf ` set xs"
    using that by (simp add: insertUnique_present)
  show "snd (snd (insertUnique keyOf xs item)) = False"
    if "sorted (map keyOf xs) \<and> keyOf item \<in> keyOf ` set xs"
    using that by (simp add: insertUnique_present)
  show "insertAll id [5 :: int, 1, 3, 1, 4] = [1, 3, 4, 5]" by code_simp
qed

theorem C6_insertUnique_sorted_unique_witness:
  "sorted_wrt (<) (map id [1 :: int, 3, 4, 5]) \<and> sorted (map id [1 :: int, 3, 4, 5])
   \<and> id (3 :: int) \<in> id ` set [1, 3, 4, 5]
   \<and> insertUnique id [1 :: int, 3, 4, 5] 3 = ([1, 3, 4, 5], 1, False)
   \<and> insertUnique id [1 :: int, 3, 4, 5] 2 = ([1, 2, 3, 4, 5], 1, True)
   \<and> sorted_wrt (<) (map id (fst (insertUnique id [1 :: int, 3, 4, 5] 2)))"
proof -
  have e1: "insertUnique id [1 :: int, 3, 4, 5] 3 = ([1, 3, 4, 5], 1, False)" by code_simp
  have e2: "insertUnique id [1 :: int, 3, 4, 5] 2 = ([1, 2, 3, 4, 5], 1, True)" by code_simp
  show ?thesis
    using C6_insertUnique_sorted_unique [where keyOf = id and xs = "[1 :: int, 3, 4, 5]" and item = 3]
      C6_insertUnique_sorted_unique [where keyOf = id and xs = "[1 :: int, 3, 4, 5]" and item = 2]
      e1 e2
    by simp
qed

subsection \<open>Map::erase, Map::find and Map::emplace\<close>

lemma Map_insert_strict_sorted:
  fixes m :: "('k::linorder \<times> 'e) list"
  assumes "sorted_wrt (<) (map fst m)"
  shows "sorted_wrt (<) (map fst (fst (Map_insert m k e)))"
  using insertUnique_strict_sorted [OF assms, where item = "(k, e)"]
  by (simp add: Map_insert_def)

text \<open>
  When the search reports no match, whatever it is, \<^verbatim>\<open>find\<close> returns \<^verbatim>\<open>end()\<close> and
  \<^verbatim>\<open>erase\<close> leaves the map as it was and returns normally; on a sorted map that is the
  case of every key that is not in the map.
\<close>

lemma Map_no_match:
  assumes "\<not> snd (fsp fst m k)"
  shows "Map_find_with fsp m k = MapBase_end m" and "Map_erase_with fsp m k = Inr m"
  using assms by (cases "fsp fst m k"; simp add: Map_find_with_def Map_erase_with_def)+

lemma Map_absent:
  assumes "sorted (map fst m)" "k \<notin> fst ` set m"
  shows "Map_find m k = MapBase_end m" and "Map_erase m k = Inr m"
  using assms(2)
  by (simp_all add: Map_find_def Map_erase_def Map_no_match findSortedPosition_eq [OF assms(1)])

text \<open>
  When the search reports a match, whatever it is, \<^verbatim>\<open>find\<close> returns the position
  before the one \<^verbatim>\<open>emplace\<close> returns for the same key.
\<close>

lemma Map_callers_disagree:
  assumes "snd (fsp fst m k)"
  shows "Map_find_with fsp m k = fst (snd (Map_emplace_with fsp m k e)) - 1"
    and "fst (Map_emplace_with fsp m k e) = m"
  using assms by (cases "fsp fst m k"; simp add: Map_find_with_def Map_emplace_with_def)+


subsection \<open>Pool allocator\<close>

lemma pool_inv_empty: "pool_inv N (emptyList N)"
  by (simp add: pool_inv_def emptyList_def emptyPool_def)

lemma set_take_drop: "set (take n xs) \<union> set (drop n xs) = set xs"
  by (metis append_take_drop_id set_append)

lemma distinct_take_drop:
  "distinct (take n xs @ drop n xs @ ys) \<longleftrightarrow> distinct (xs @ ys)"
  by (metis append.assoc append_take_drop_id)

lemma pool_inv_insert:
  assumes "pool_inv N l"
  shows "pool_inv N (fst (List_insert l pos item))"
proof (cases "freeList (pool l)")
  case Nil
  show ?thesis
  proof (cases "claimed (pool l) < poolCapacity (pool l)")
    case True
    have d: "distinct (map fst (take (nat pos) (nodes l)) @ map fst (drop (nat pos) (nodes l)))"
      using assms Nil by (metis append_Nil2 append_take_drop_id map_append pool_inv_def)
    have s: "set (map fst (take (nat pos) (nodes l))) \<union> set (map fst (drop (nat pos) (nodes l)))
              = {0 ..< claimed (pool l)}"
      using assms Nil by (metis append_Nil2 append_take_drop_id map_append pool_inv_def set_append sup_bot.right_neutral)
    show ?thesis
      using assms Nil True d s
      by (auto simp: pool_inv_def List_insert_def acquire_def atLeast0_lessThan_Suc)
  next
    case False
    then show ?thesis using assms Nil by (simp add: List_insert_def acquire_def)
  qed
next
  case (Cons slot rest)
  have d: "distinct (map fst (take (nat pos) (nodes l)) @ map fst (drop (nat pos) (nodes l)) @ slot # rest)"
    using assms Cons by (metis append.assoc append_take_drop_id map_append pool_inv_def)
  have s: "set (map fst (take (nat pos) (nodes l))) \<union> set (map fst (drop (nat pos) (nodes l)))
             \<union> set (slot # rest) = {0 ..< claimed (pool l)}"
    using assms Cons by (metis append_take_drop_id map_append pool_inv_def set_append)
  show ?thesis
    using assms Cons d s
    by (auto simp: pool_inv_def List_insert_def acquire_def)
qed


lemma pool_inv_erase:
  assumes "pool_inv N l" "List_erase l pos = Inr (l', it)"
  shows "pool_inv N l'"
proof -
  have v: "0 \<le> pos" "pos < List_end l"
    using assms(2) by (auto simp: List_erase_def split: if_splits)
  define i where "i = nat pos"
  define A where "A = map fst (take i (nodes l))"
  define B where "B = map fst (drop (Suc i) (nodes l))"
  define x where "x = fst (nodes l ! i)"
  define F where "F = freeList (pool l)"
  have i: "i < length (nodes l)" using v by (simp add: i_def List_end_def)
  have l': "l' = l\<lparr>pool := release (pool l) (fst (nodes l ! i)),
                  nodes := take i (nodes l) @ drop (Suc i) (nodes l),
                  destroyed := destroyed l + 1\<rparr>"
    using assms(2) v by (auto simp: List_erase_def i_def)
  have split: "map fst (nodes l) = A @ x # B"
    unfolding A_def B_def x_def using i by (metis id_take_nth_drop list.simps(9) map_append)
  have d: "distinct (A @ x # B @ F)"
    using assms(1) split by (simp add: pool_inv_def F_def)
  have s: "set A \<union> {x} \<union> set B \<union> set F = {0 ..< claimed (pool l)}"
    using assms(1) split by (auto simp: pool_inv_def F_def)
  have n': "map fst (nodes l') = A @ B" by (simp add: l' A_def B_def)
  have f': "freeList (pool l') = x # F" by (simp add: l' release_def x_def F_def)
  have c': "claimed (pool l') = claimed (pool l)" "poolCapacity (pool l') = poolCapacity (pool l)"
    by (simp_all add: l' release_def)
  have d': "distinct ((A @ B) @ x # F)" using d by auto
  have s': "set (A @ B) \<union> set (x # F) = {0 ..< claimed (pool l)}" using s by auto
  show ?thesis
    unfolding pool_inv_def n' f' c' using assms(1) d' s' by (simp only: pool_inv_def)
qed

lemma reachable_pool_inv: "reachable N l \<Longrightarrow> pool_inv N l"
proof (induction rule: reachable.induct)
  case empty
  show ?case by (rule pool_inv_empty)
next
  case (insert l pos item)
  then show ?case by (simp add: pool_inv_insert)
next
  case (erase l pos l' it)
  from erase.IH erase.hyps(2) show ?case by (rule pool_inv_erase)
qed

lemma pool_inv_full:
  assumes "pool_inv N l" "length (nodes l) = N"
  shows "freeList (pool l) = [] \<and> claimed (pool l) = poolCapacity (pool l)"
proof -
  define U where "U = set (map fst (nodes l))"
  define F where "F = set (freeList (pool l))"
  have dn: "distinct (map fst (nodes l))" using assms(1) by (simp add: pool_inv_def)
  have cardU: "card U = N" unfolding U_def using assms(2) distinct_card [OF dn] by simp
  have un: "U \<union> F = {0 ..< claimed (pool l)}"
    unfolding U_def F_def using assms(1) by (simp only: pool_inv_def)
  have disj: "U \<inter> F = {}"
    unfolding U_def F_def using assms(1) by (simp only: pool_inv_def distinct_append)
  have fin: "finite U" "finite F" by (simp_all add: U_def F_def)
  have "card (U \<union> F) = card U + card F" using fin disj by (rule card_Un_disjoint)
  then have sum: "N + card F = claimed (pool l)" using un cardU by simp
  have le: "claimed (pool l) \<le> N" using assms(1) by (simp only: pool_inv_def)
  have cap: "poolCapacity (pool l) = N" using assms(1) by (simp only: pool_inv_def)
  from sum le have "card F = 0" by linarith
  then have "F = {}" using fin(2) by simp
  then have "freeList (pool l) = []" by (simp add: F_def)
  moreover from sum le have "claimed (pool l) = N" by linarith
  ultimately show ?thesis using cap by simp
qed

lemma acquire_full:
  assumes "freeList p = []" "claimed p = poolCapacity p"
  shows "acquire p = Inl PoolExhausted"
  using assms by (simp add: acquire_def)

text \<open>
  C5. A pool whose free list is empty and whose claim counter is at \<open>N\<close> refuses
  \<^verbatim>\<open>acquire()\<close> with \<open>PoolExhausted\<close>. A pooled list of capacity \<open>N\<close>, reached from
  the empty list by insertions and erasures and holding \<open>N\<close> elements, has such a pool:
  \<^verbatim>\<open>insert\<close> returns \<^verbatim>\<open>end()\<close> and leaves the list as it was, with its size \<open>N\<close>, its
  nodes and the counts of constructed and destroyed payloads.
\<close>

theorem C5_pool_exhausted:
  assumes "reachable N l" "getSize l = N"
  shows "acquire (pool l) = Inl PoolExhausted
    \<and> List_insert l pos item = (l, List_end l)
    \<and> getSize (fst (List_insert l pos item)) = N
    \<and> acquire \<lparr>poolCapacity = N, freeList = [], claimed = N\<rparr> = Inl PoolExhausted"
proof -
  have "pool_inv N l" using assms(1) by (rule reachable_pool_inv)
  then have "freeList (pool l) = [] \<and> claimed (pool l) = poolCapacity (pool l)"
    using assms(2) by (intro pool_inv_full) (simp_all add: getSize_def)
  then have a: "acquire (pool l) = Inl PoolExhausted" by (simp add: acquire_full)
  then have "List_insert l pos item = (l, List_end l)" by (simp add: List_insert_def)
  with a assms(2) show ?thesis by (simp add: acquire_def)
qed

lemma reachable_pushBack: "reachable N l \<Longrightarrow> reachable N (List_pushBack l item)"
  unfolding List_pushBack_def by (rule reachable.insert) (simp_all add: List_end_def)

lemma reachable_pushAll: "reachable N l \<Longrightarrow> reachable N (pushAll l items)"
  unfolding pushAll_def
  by (induction items arbitrary: l) (simp_all add: reachable_pushBack)

theorem C5_pool_exhausted_witness:
  "reachable 16 (pushAll (emptyList 16) [0 ..< 16])
   \<and> getSize (pushAll (emptyList 16) [0 ..< 16]) = 16
   \<and> List_insert (pushAll (emptyList 16) [0 ..< 16]) 0 16
       = (pushAll (emptyList 16) [0 ..< 16], List_end (pushAll (emptyList 16) [0 ..< 16]))
   \<and> List_end (pushAll (emptyList 16) [0 ..< 16]) = 16
   \<and> getSize (fst (List_insert (pushAll (emptyList 16) [0 ..< 16]) 0 16)) = 16"
proof -
  have r: "reachable 16 (pushAll (emptyList 16) [0 ..< 16 :: nat])"
    by (rule reachable_pushAll) (rule reachable.empty)
  have n: "getSize (pushAll (emptyList 16) [0 ..< 16 :: nat]) = 16" by code_simp
  have e: "List_end (pushAll (emptyList 16) [0 ..< 16 :: nat]) = 16" by code_simp
  show ?thesis
    using r n e C5_pool_exhausted [OF r n, where pos = 0 and item = 16] by simp
qed

end
